theory Spec2Isabelle
  imports Main
begin

section \<open>Python strings\<close>

text \<open>
  A Python \<open>str\<close> is modelled as a \<open>string\<close> whose characters are the code points
  U+0000 to U+00FF, so \<open>length\<close> is Python's \<open>len\<close> on such strings.
\<close>

definition isspace :: "char \<Rightarrow> bool" where
  \<comment> \<open>\<open>str.isspace\<close> on one code point below U+0100: TAB, LF, VT, FF, CR, FS, GS, RS, US,
      SPACE, NEL and NBSP.\<close>
  "isspace c = ((of_char c :: nat) \<in> {9, 10, 11, 12, 13, 28, 29, 30, 31, 32, 133, 160})"

definition strip :: "string \<Rightarrow> string" where
  \<comment> \<open>\<open>str.strip()\<close>: whitespace removed at both ends.\<close>
  "strip s = rev (dropWhile isspace (rev (dropWhile isspace s)))"

definition lower_char :: "char \<Rightarrow> char" where
  \<comment> \<open>\<open>str.lower()\<close> on one code point below U+0100: A-Z, and the Latin-1 capitals
      U+00C0 to U+00DE without the multiplication sign U+00D7, move up by 32.\<close>
  "lower_char c =
     (let n = (of_char c :: nat)
      in if (65 \<le> n \<and> n \<le> 90) \<or> (192 \<le> n \<and> n \<le> 222 \<and> n \<noteq> 215)
         then char_of (n + 32) else c)"

definition lower :: "string \<Rightarrow> string" where
  "lower s = map lower_char s"

section \<open>The database\<close>

text \<open>
  The \<open>registration_token\<close> column of \<open>EVENTS\<close>: \<open>Unique\<close> in a table made by
  \<open>init_db\<close>, \<open>Plain\<close> (no uniqueness constraint) when the migration added it to an
  older table, \<open>Absent\<close> when the migration failed on an older table.
\<close>

datatype token_column = Absent | Plain | Unique

record event =
  e_id :: nat
  e_name :: string
  e_description :: "string option"
  e_date :: "string option"
  e_registration_token :: "string option"
  e_created_at :: nat

record participant =
  p_id :: nat
  p_event_id :: nat
  p_name :: string
  p_email :: string
  p_college :: string
  p_registered_at :: nat

text \<open>
  The two tables in insertion order, and for each the largest row id ever used, which
  \<open>AUTOINCREMENT\<close> keeps in \<open>sqlite_sequence\<close>. Foreign keys are not enforced: the
  connection never turns \<open>PRAGMA foreign_keys\<close> on.
\<close>

record database =
  token_schema :: token_column
  events :: "event list"
  participants :: "participant list"
  events_seq :: nat
  participants_seq :: nat

datatype exn =
    IndexError
  | KeyError
  | BuildError
  | OverflowError
  | IntegrityError string
  | OperationalError string

definition is_sqlite_error :: "exn \<Rightarrow> bool" where
  \<comment> \<open>What \<open>except sqlite3.Error\<close> catches.\<close>
  "is_sqlite_error e =
     (case e of IntegrityError m \<Rightarrow> True | OperationalError m \<Rightarrow> True | _ \<Rightarrow> False)"

definition str_exn :: "exn \<Rightarrow> string" where
  \<comment> \<open>\<open>str(e)\<close> of an error of \<open>sqlite3\<close>\<close>
  "str_exn e =
     (case e of IntegrityError m \<Rightarrow> m | OperationalError m \<Rightarrow> m | _ \<Rightarrow> [])"

definition max_rowid :: nat where
  \<comment> \<open>The largest SQLite \<open>INTEGER\<close>, 2 to the 63 minus 1.\<close>
  "max_rowid = 9223372036854775807"

definition largest_rowid :: "nat \<Rightarrow> nat list \<Rightarrow> nat" where
  \<comment> \<open>The largest row id the table has ever held.\<close>
  "largest_rowid seq ids = fold max ids seq"

definition next_rowid :: "nat \<Rightarrow> nat list \<Rightarrow> exn + nat" where
  \<comment> \<open>\<open>AUTOINCREMENT\<close>: one more than the largest row id the table has ever held, and
      no row id at all once that is the largest integer.\<close>
  "next_rowid seq ids =
     (if max_rowid \<le> largest_rowid seq ids
      then Inl (OperationalError ''database or disk is full'')
      else Inr (Suc (largest_rowid seq ids)))"

definition bind_integer :: "nat \<Rightarrow> exn + nat" where
  \<comment> \<open>A Python \<open>int\<close> bound to a parameter of a statement: \<open>sqlite3\<close> raises
      \<open>OverflowError\<close>, which is no \<open>sqlite3.Error\<close>, on one that is no SQLite \<open>INTEGER\<close>.\<close>
  "bind_integer n = (if max_rowid < n then Inl OverflowError else Inr n)"

text \<open>A column of a fetched row: absent from the result set, or holding a value.\<close>

datatype 'a column = No_column | Column 'a

record event_row =
  r_id :: nat
  r_name :: string
  r_description :: "string option"
  r_date :: "string option"
  r_registration_token :: "string option column"
  r_created_at :: nat

definition select_event :: "database \<Rightarrow> event \<Rightarrow> event_row" where
  \<comment> \<open>\<open>SELECT * FROM EVENTS\<close> on one row.\<close>
  "select_event db e =
     \<lparr>r_id = e_id e, r_name = e_name e, r_description = e_description e, r_date = e_date e,
      r_registration_token =
        (if token_schema db = Absent then No_column else Column (e_registration_token e)),
      r_created_at = e_created_at e\<rparr>"

definition row_registration_token :: "event_row \<Rightarrow> exn + string option" where
  \<comment> \<open>\<open>event['registration_token']\<close> on a fetched row\<close>
  "row_registration_token event =
     (case r_registration_token event of
        No_column \<Rightarrow> Inl IndexError
      | Column v \<Rightarrow> Inr v)"

definition get_event_by_id :: "nat \<Rightarrow> database \<Rightarrow> exn + event_row option" where
  "get_event_by_id event_id db =
     (case bind_integer event_id of
        Inl e \<Rightarrow> Inl e
      | Inr i \<Rightarrow> Inr (map_option (select_event db) (find (\<lambda>e. e_id e = i) (events db))))"

definition get_event_by_token :: "string \<Rightarrow> database \<Rightarrow> exn + event_row option" where
  \<comment> \<open>The query names the token column, so it fails on a table without it.\<close>
  "get_event_by_token token db =
     (if token_schema db = Absent
      then Inl (OperationalError ''no such column: registration_token'')
      else Inr (map_option (select_event db)
                  (find (\<lambda>e. e_registration_token e = Some token) (events db))))"

definition order_by_desc :: "('a \<Rightarrow> nat) \<Rightarrow> 'a list \<Rightarrow> 'a list" where
  \<comment> \<open>\<open>ORDER BY key DESC\<close>: the largest key first, rows of equal key in the order of
      the table.\<close>
  "order_by_desc key rows = rev (sort_key key (rev rows))"

definition get_all_events :: "database \<Rightarrow> event_row list" where
  "get_all_events db = map (select_event db) (order_by_desc e_created_at (events db))"

definition participant_exists_in_event :: "string \<Rightarrow> nat \<Rightarrow> database \<Rightarrow> bool" where
  "participant_exists_in_event email event_id db =
     (find (\<lambda>p. p_email p = email \<and> p_event_id p = event_id) (participants db) \<noteq> None)"

definition get_participant_count :: "nat \<Rightarrow> database \<Rightarrow> nat" where
  "get_participant_count event_id db =
     length (filter (\<lambda>p. p_event_id p = event_id) (participants db))"

section \<open>Requests and responses\<close>

type_synonym flash = "string \<times> string"

datatype session_value = SBool bool | SStr string

type_synonym session = "string \<rightharpoonup> session_value"

type_synonym form = "string \<rightharpoonup> string"

definition form_get :: "form \<Rightarrow> string \<Rightarrow> string" where
  \<comment> \<open>\<open>request.form.get(key, '')\<close>\<close>
  "form_get f key = (case f key of None \<Rightarrow> [] | Some v \<Rightarrow> v)"

datatype http_method = GET | POST

text \<open>The routes a response can point to, with the values \<open>url_for\<close> is given.\<close>

datatype endpoint =
    Login
  | Dashboard
  | Create_event
  | Public_register string
  | Registration_success string string
  | View_participants nat

record event_details =
  d_event :: event_row
  d_participant_count :: nat
  d_registration_url :: "endpoint option"
  d_has_token :: bool

record participants_page =
  v_event :: event_row
  v_participants :: "participant list"
  v_search_query :: string
  v_participant_count :: nat
  v_registration_url :: endpoint

datatype response =
    Redirect endpoint
  | Login_html
  | Dashboard_html "event_details list"
  | Create_event_html
  | Public_register_html event_row string
  | Participants_html participants_page
  | Error_html string string nat

type_synonym reply = "flash list \<times> response"

definition internal_error :: reply where
  \<comment> \<open>The handler of status 500, which an exception no route catches ends in.\<close>
  "internal_error =
     ([], Error_html ''Internal Server Error''
            ''An unexpected error occurred. Please try again later.'' 500)"

definition login_required :: "session \<Rightarrow> (database \<Rightarrow> reply \<times> database) \<Rightarrow> database \<Rightarrow> reply \<times> database" where
  "login_required sess f db =
     (if sess ''admin_logged_in'' = None
      then (([(''Please log in to access this page.'', ''warning'')], Redirect Login), db)
      else f db)"

section \<open>Deleting\<close>

definition delete_participants_of :: "nat \<Rightarrow> database \<Rightarrow> database" where
  \<comment> \<open>\<open>DELETE FROM PARTICIPANTS WHERE event_id = ?\<close>\<close>
  "delete_participants_of event_id db =
     db\<lparr>participants := filter (\<lambda>p. p_event_id p \<noteq> event_id) (participants db)\<rparr>"

definition delete_event_row :: "nat \<Rightarrow> database \<Rightarrow> database" where
  \<comment> \<open>\<open>DELETE FROM EVENTS WHERE id = ?\<close>\<close>
  "delete_event_row event_id db =
     db\<lparr>events := filter (\<lambda>e. e_id e \<noteq> event_id) (events db)\<rparr>"

definition delete_participant_row :: "nat \<Rightarrow> nat \<Rightarrow> database \<Rightarrow> exn + database" where
  \<comment> \<open>\<open>DELETE FROM PARTICIPANTS WHERE id = ? AND event_id = ?\<close>, both ids taken from the
      path of the request and bound here.\<close>
  "delete_participant_row participant_id event_id db =
     (case bind_integer participant_id of
        Inl e \<Rightarrow> Inl e
      | Inr i \<Rightarrow>
          (case bind_integer event_id of
             Inl e \<Rightarrow> Inl e
           | Inr j \<Rightarrow>
               Inr (db\<lparr>participants :=
                         filter (\<lambda>p. \<not> (p_id p = i \<and> p_event_id p = j)) (participants db)\<rparr>)))"

definition delete_event_body :: "nat \<Rightarrow> database \<Rightarrow> reply \<times> database" where
  \<comment> \<open>The lookup is outside the \<open>try\<close>. The two deletes bind the id the lookup has
      bound already.\<close>
  "delete_event_body event_id db =
     (case get_event_by_id event_id db of
        Inl e \<Rightarrow> (internal_error, db)
      | Inr None \<Rightarrow> (([(''Event not found.'', ''error'')], Redirect Dashboard), db)
      | Inr (Some event) \<Rightarrow>
          (([(''Event '' @ [CHR 0x22] @ r_name event @ [CHR 0x22] @ '' deleted successfully.'',
              ''success'')],
            Redirect Dashboard),
           delete_event_row event_id (delete_participants_of event_id db)))"

definition delete_event :: "session \<Rightarrow> nat \<Rightarrow> database \<Rightarrow> reply \<times> database" where
  "delete_event sess event_id = login_required sess (delete_event_body event_id)"

definition delete_participant_body :: "nat \<Rightarrow> nat \<Rightarrow> database \<Rightarrow> reply \<times> database" where
  \<comment> \<open>The \<open>try\<close> catches \<open>sqlite3.Error\<close> only.\<close>
  "delete_participant_body event_id participant_id db =
     (case delete_participant_row participant_id event_id db of
        Inr db' \<Rightarrow>
          (([(''Participant removed successfully.'', ''success'')],
            Redirect (View_participants event_id)), db')
      | Inl e \<Rightarrow>
          (if is_sqlite_error e
           then (([(''Database error: '' @ str_exn e, ''error'')],
                  Redirect (View_participants event_id)), db)
           else (internal_error, db)))"

definition delete_participant :: "session \<Rightarrow> nat \<Rightarrow> nat \<Rightarrow> database \<Rightarrow> reply \<times> database" where
  "delete_participant sess event_id participant_id =
     login_required sess (delete_participant_body event_id participant_id)"

section \<open>Validation\<close>

text \<open>
  Regular expressions, matched by derivatives, for the pattern of \<open>is_valid_email\<close>.
\<close>

datatype rx =
    Nothing
  | Empty
  | Class "char \<Rightarrow> bool"
  | Seq rx rx
  | Alt rx rx
  | Star rx

fun nullable :: "rx \<Rightarrow> bool" where
  "nullable Nothing = False"
| "nullable Empty = True"
| "nullable (Class P) = False"
| "nullable (Seq r s) = (nullable r \<and> nullable s)"
| "nullable (Alt r s) = (nullable r \<or> nullable s)"
| "nullable (Star r) = True"

fun deriv :: "char \<Rightarrow> rx \<Rightarrow> rx" where
  "deriv c Nothing = Nothing"
| "deriv c Empty = Nothing"
| "deriv c (Class P) = (if P c then Empty else Nothing)"
| "deriv c (Seq r s) =
     (if nullable r then Alt (Seq (deriv c r) s) (deriv c s) else Seq (deriv c r) s)"
| "deriv c (Alt r s) = Alt (deriv c r) (deriv c s)"
| "deriv c (Star r) = Seq (deriv c r) (Star r)"

definition fullmatch :: "rx \<Rightarrow> string \<Rightarrow> bool" where
  "fullmatch r s = nullable (fold deriv s r)"

definition plus :: "rx \<Rightarrow> rx" where
  \<comment> \<open>\<open>r+\<close>\<close>
  "plus r = Seq r (Star r)"

definition ascii_alpha :: "char \<Rightarrow> bool" where
  \<comment> \<open>\<open>[a-zA-Z]\<close>\<close>
  "ascii_alpha c =
     (let n = (of_char c :: nat) in (65 \<le> n \<and> n \<le> 90) \<or> (97 \<le> n \<and> n \<le> 122))"

definition ascii_alnum :: "char \<Rightarrow> bool" where
  \<comment> \<open>\<open>[a-zA-Z0-9]\<close>\<close>
  "ascii_alnum c = (ascii_alpha c \<or> (let n = (of_char c :: nat) in 48 \<le> n \<and> n \<le> 57))"

definition local_char :: "char \<Rightarrow> bool" where
  \<comment> \<open>\<open>[a-zA-Z0-9._%+-]\<close>\<close>
  "local_char c = (ascii_alnum c \<or> c \<in> set ''._%+-'')"

definition domain_char :: "char \<Rightarrow> bool" where
  \<comment> \<open>\<open>[a-zA-Z0-9.-]\<close>\<close>
  "domain_char c = (ascii_alnum c \<or> c \<in> set ''.-'')"

definition email_pattern :: rx where
  \<comment> \<open>\<open>[a-zA-Z0-9._%+-]+@[a-zA-Z0-9.-]+\.[a-zA-Z]{2,}\<close>\<close>
  "email_pattern =
     Seq (plus (Class local_char))
       (Seq (Class (\<lambda>c. c = CHR ''@''))
          (Seq (plus (Class domain_char))
             (Seq (Class (\<lambda>c. c = CHR ''.''))
                (Seq (Class ascii_alpha) (Seq (Class ascii_alpha) (Star (Class ascii_alpha)))))))"

definition is_valid_email :: "string \<Rightarrow> bool" where
  \<comment> \<open>\<open>re.match\<close> of the pattern between \<open>^\<close> and \<open>$\<close>; \<open>$\<close> also matches just before
      a newline that ends the string.\<close>
  "is_valid_email email =
     (fullmatch email_pattern email \<or>
      (email \<noteq> [] \<and> last email = CHR 0x0A \<and> fullmatch email_pattern (butlast email)))"

section \<open>Inserting\<close>

fun contains :: "string \<Rightarrow> string \<Rightarrow> bool" where
  \<comment> \<open>\<open>sub in s\<close>\<close>
  "contains sub [] = (sub = [])"
| "contains sub (c # s) = (take (length sub) (c # s) = sub \<or> contains sub s)"

text \<open>
  The two \<open>INSERT INTO EVENTS\<close> statements of \<open>create_event\<close>. \<open>now\<close> is the value of
  \<open>CURRENT_TIMESTAMP\<close>. A statement that raises leaves the database as it was. A column
  the table does not have stops the statement when it is prepared; the row id is taken
  next, and the uniqueness constraint is checked last.
\<close>

definition new_event :: "nat \<Rightarrow> string \<Rightarrow> string \<Rightarrow> string \<Rightarrow> string option \<Rightarrow> nat \<Rightarrow> event" where
  "new_event rowid name description date token now =
     \<lparr>e_id = rowid, e_name = name, e_description = Some description, e_date = Some date,
      e_registration_token = token, e_created_at = now\<rparr>"

definition add_event :: "event \<Rightarrow> database \<Rightarrow> database" where
  "add_event e db = db\<lparr>events := events db @ [e], events_seq := e_id e\<rparr>"

definition insert_event_with_token ::
  "string \<Rightarrow> string \<Rightarrow> string \<Rightarrow> string \<Rightarrow> nat \<Rightarrow> database \<Rightarrow> exn + database" where
  "insert_event_with_token name description date registration_token now db =
     (if token_schema db = Absent
      then Inl (OperationalError ''table EVENTS has no column named registration_token'')
      else (case next_rowid (events_seq db) (map e_id (events db)) of
              Inl e \<Rightarrow> Inl e
            | Inr rowid \<Rightarrow>
                (if token_schema db = Unique \<and>
                    find (\<lambda>e. e_registration_token e = Some registration_token) (events db)
                      \<noteq> None
                 then Inl (IntegrityError ''UNIQUE constraint failed: EVENTS.registration_token'')
                 else Inr (add_event
                             (new_event rowid name description date (Some registration_token) now)
                             db))))"

definition insert_event_without_token ::
  "string \<Rightarrow> string \<Rightarrow> string \<Rightarrow> nat \<Rightarrow> database \<Rightarrow> exn + database" where
  "insert_event_without_token name description date now db =
     (case next_rowid (events_seq db) (map e_id (events db)) of
        Inl e \<Rightarrow> Inl e
      | Inr rowid \<Rightarrow> Inr (add_event (new_event rowid name description date None now) db))"

definition insert_participant ::
  "nat \<Rightarrow> string \<Rightarrow> string \<Rightarrow> string \<Rightarrow> nat \<Rightarrow> database \<Rightarrow> exn + database" where
  \<comment> \<open>\<open>INSERT INTO PARTICIPANTS\<close> under \<open>UNIQUE(event_id, email)\<close>\<close>
  "insert_participant event_id name email college now db =
     (case next_rowid (participants_seq db) (map p_id (participants db)) of
        Inl e \<Rightarrow> Inl e
      | Inr rowid \<Rightarrow>
          (if find (\<lambda>p. p_event_id p = event_id \<and> p_email p = email) (participants db) \<noteq> None
           then Inl (IntegrityError
                       ''UNIQUE constraint failed: PARTICIPANTS.event_id, PARTICIPANTS.email'')
           else Inr (db\<lparr>participants := participants db @
                          [\<lparr>p_id = rowid, p_event_id = event_id, p_name = name,
                            p_email = email, p_college = college, p_registered_at = now\<rparr>],
                        participants_seq := rowid\<rparr>)))"

section \<open>Creating an event\<close>

definition create_event_insert ::
  "string \<Rightarrow> string \<Rightarrow> string \<Rightarrow> string \<Rightarrow> nat \<Rightarrow> database \<Rightarrow> exn + database" where
  \<comment> \<open>The inner \<open>try\<close>: the insert with the token, and the one without it when the
      error names the token column.\<close>
  "create_event_insert name description date registration_token now db =
     (case insert_event_with_token name description date registration_token now db of
        Inl (OperationalError col_err) \<Rightarrow>
          (if contains ''registration_token'' col_err
           then insert_event_without_token name description date now db
           else Inl (OperationalError col_err))
      | Inl e \<Rightarrow> Inl e
      | Inr db' \<Rightarrow> Inr db')"

definition create_event_body ::
  "http_method \<Rightarrow> string \<Rightarrow> form \<Rightarrow> nat \<Rightarrow> database \<Rightarrow> reply \<times> database" where
  \<comment> \<open>\<open>generated\<close> is what \<open>generate_registration_token()\<close>, that is
      \<open>secrets.token_urlsafe(16)\<close>, returns in this request.\<close>
  "create_event_body method generated f now db =
     (if method = POST then
        (let name = strip (form_get f ''name'');
             description = strip (form_get f ''description'');
             date = strip (form_get f ''date'')
         in if name = [] \<or> length name < 3
            then (([(''Event name must be at least 3 characters.'', ''error'')],
                   Redirect Create_event), db)
            else if date = []
            then (([(''Please select an event date.'', ''error'')], Redirect Create_event), db)
            else (case create_event_insert name description date generated now db of
                    Inr db' \<Rightarrow>
                      (([(''Event '' @ [CHR 0x22] @ name @ [CHR 0x22] @
                          '' created successfully! Registration link generated.'',
                          ''success'')],
                        Redirect Dashboard), db')
                  | Inl e \<Rightarrow>
                      (if is_sqlite_error e
                       then (([(''Database error: '' @ str_exn e, ''error'')],
                              Redirect Create_event), db)
                       else (internal_error, db))))
      else (([], Create_event_html), db))"

definition create_event ::
  "session \<Rightarrow> http_method \<Rightarrow> string \<Rightarrow> form \<Rightarrow> nat \<Rightarrow> database \<Rightarrow> reply \<times> database" where
  "create_event sess method generated f now =
     login_required sess (create_event_body method generated f now)"

section \<open>Public registration\<close>

definition already_registered :: "string \<Rightarrow> reply" where
  "already_registered token =
     ([(''This email is already registered for this event.'', ''error'')],
      Redirect (Public_register token))"

definition public_register_insert ::
  "string \<Rightarrow> event_row \<Rightarrow> string \<Rightarrow> string \<Rightarrow> string \<Rightarrow> nat \<Rightarrow> database \<Rightarrow> reply \<times> database" where
  \<comment> \<open>The \<open>try\<close> block of \<open>public_register\<close>.\<close>
  "public_register_insert token event name email college now db =
     (case insert_participant (r_id event) name email college now db of
        Inr db' \<Rightarrow> (([], Redirect (Registration_success (r_name event) name)), db')
      | Inl (IntegrityError m) \<Rightarrow>
          (([(''This email is already registered for this event.'', ''error'')],
            Redirect (Public_register token)), db)
      | Inl e \<Rightarrow>
          (if is_sqlite_error e
           then (([(''Registration failed. Please try again.'', ''error'')],
                  Redirect (Public_register token)), db)
           else (internal_error, db)))"

text \<open>
  Each helper opens its own connection, so other requests can change the database
  between the check for an existing participant and the insert: \<open>others\<close> is what they
  do to it in between.
\<close>

definition public_register_among ::
  "(database \<Rightarrow> database) \<Rightarrow> http_method \<Rightarrow> string \<Rightarrow> form \<Rightarrow> nat \<Rightarrow> database \<Rightarrow> reply \<times> database" where
  "public_register_among others method token f now db =
     (case get_event_by_token token db of
        Inl e \<Rightarrow> (internal_error, db)
      | Inr None \<Rightarrow>
          (([(''Invalid or expired registration link.'', ''error'')],
            Error_html ''Invalid Registration Link''
              ''The registration link you used is invalid or has expired.'' 200), db)
      | Inr (Some event) \<Rightarrow>
          (if method = POST then
             (let name = strip (form_get f ''name'');
                  email = lower (strip (form_get f ''email''));
                  college = strip (form_get f ''college'')
              in if name = [] \<or> length name < 2
                 then (([(''Name must be at least 2 characters.'', ''error'')],
                        Redirect (Public_register token)), db)
                 else if email = [] \<or> \<not> is_valid_email email
                 then (([(''Please enter a valid email address.'', ''error'')],
                        Redirect (Public_register token)), db)
                 else if participant_exists_in_event email (r_id event) db
                 then (([(''This email is already registered for this event.'', ''error'')],
                        Redirect (Public_register token)), db)
                 else if college = [] \<or> length college < 2
                 then (([(''College/Organization must be at least 2 characters.'', ''error'')],
                        Redirect (Public_register token)), db)
                 else public_register_insert token event name email college now (others db))
           else (([], Public_register_html event token), db)))"

definition public_register ::
  "http_method \<Rightarrow> string \<Rightarrow> form \<Rightarrow> nat \<Rightarrow> database \<Rightarrow> reply \<times> database" where
  \<comment> \<open>A request that no other request interleaves with.\<close>
  "public_register = public_register_among (\<lambda>db. db)"

section \<open>Logging in\<close>

text \<open>\<open>ADMIN_USERNAME\<close> and \<open>ADMIN_PASSWORD\<close>, read from the environment at start.\<close>

record config =
  ADMIN_USERNAME :: string
  ADMIN_PASSWORD :: string

definition default_config :: config where
  "default_config = \<lparr>ADMIN_USERNAME = ''admin'', ADMIN_PASSWORD = ''admin123''\<rparr>"

definition login :: "config \<Rightarrow> http_method \<Rightarrow> form \<Rightarrow> session \<Rightarrow> reply \<times> session" where
  "login cfg method f sess =
     (if sess ''admin_logged_in'' \<noteq> None then (([], Redirect Dashboard), sess)
      else if method = POST then
        (let username = strip (form_get f ''username'');
             password = form_get f ''password''
         in if username = ADMIN_USERNAME cfg \<and> password = ADMIN_PASSWORD cfg
            then (([(''Welcome back, Admin!'', ''success'')], Redirect Dashboard),
                  sess(''admin_logged_in'' \<mapsto> SBool True, ''admin_username'' \<mapsto> SStr username))
            else (([(''Invalid username or password.'', ''error'')], Redirect Login), sess))
      else (([], Login_html), sess))"

definition logout :: "session \<Rightarrow> reply \<times> session" where
  "logout sess =
     (([(''You have been logged out successfully.'', ''success'')], Redirect Login), Map.empty)"

section \<open>Listing participants\<close>

definition sqlite_lower_char :: "char \<Rightarrow> char" where
  \<comment> \<open>SQLite folds the case of ASCII letters only.\<close>
  "sqlite_lower_char c =
     (let n = (of_char c :: nat) in if 65 \<le> n \<and> n \<le> 90 then char_of (n + 32) else c)"

definition sqlite_lower :: "string \<Rightarrow> string" where
  \<comment> \<open>\<open>LOWER(x)\<close>\<close>
  "sqlite_lower s = map sqlite_lower_char s"

fun like :: "string \<Rightarrow> string \<Rightarrow> bool" where
  \<comment> \<open>\<open>text LIKE pattern\<close>, the pattern first: \<open>%\<close> stands for any run of characters,
      \<open>_\<close> for any one character, and ASCII letters match in either case.\<close>
  "like [] [] = True"
| "like [] (c # s) = False"
| "like (p # ps) [] = (p = CHR ''%'' \<and> like ps [])"
| "like (p # ps) (c # s) =
     (if p = CHR ''%'' then like ps (c # s) \<or> like (p # ps) s
      else (p = CHR ''_'' \<or> sqlite_lower_char p = sqlite_lower_char c) \<and> like ps s)"

definition select_participants :: "nat \<Rightarrow> string \<Rightarrow> database \<Rightarrow> participant list" where
  \<comment> \<open>The two queries of \<open>view_participants\<close>, \<open>ORDER BY registered_at DESC\<close>.\<close>
  "select_participants event_id search_query db =
     order_by_desc p_registered_at
       (if search_query \<noteq> []
        then filter (\<lambda>p. p_event_id p = event_id \<and>
                      (like (''%'' @ search_query @ ''%'') (sqlite_lower (p_name p)) \<or>
                       like (''%'' @ search_query @ ''%'') (sqlite_lower (p_email p))))
               (participants db)
        else filter (\<lambda>p. p_event_id p = event_id) (participants db))"

definition url_for_public_register :: "string option \<Rightarrow> exn + endpoint" where
  \<comment> \<open>\<open>url_for('public_register', token=token)\<close>: a value of \<open>None\<close> is dropped, and the
      route cannot be built without its token.\<close>
  "url_for_public_register token =
     (case token of None \<Rightarrow> Inl BuildError | Some t \<Rightarrow> Inr (Public_register t))"

definition view_participants_body :: "nat \<Rightarrow> form \<Rightarrow> database \<Rightarrow> reply \<times> database" where
  \<comment> \<open>\<open>args\<close> is the query string. The lookup of the event is outside the \<open>try\<close>, and
      the \<open>try\<close> catches \<open>sqlite3.Error\<close> only.\<close>
  "view_participants_body event_id args db =
     (case get_event_by_id event_id db of
        Inl e \<Rightarrow> (internal_error, db)
      | Inr None \<Rightarrow> (([(''Event not found.'', ''error'')], Redirect Dashboard), db)
      | Inr (Some event) \<Rightarrow>
          (let search_query = lower (strip (form_get args ''search''));
               ps = select_participants event_id search_query db
           in case row_registration_token event of
                Inl e \<Rightarrow> (internal_error, db)
              | Inr token \<Rightarrow>
                  (case url_for_public_register token of
                     Inl e \<Rightarrow> (internal_error, db)
                   | Inr registration_url \<Rightarrow>
                       (([], Participants_html
                               \<lparr>v_event = event, v_participants = ps,
                                v_search_query = search_query,
                                v_participant_count = length ps,
                                v_registration_url = registration_url\<rparr>), db))))"

definition view_participants :: "session \<Rightarrow> nat \<Rightarrow> form \<Rightarrow> database \<Rightarrow> reply \<times> database" where
  "view_participants sess event_id args = login_required sess (view_participants_body event_id args)"

section \<open>The dashboard\<close>

definition truthy :: "string option \<Rightarrow> bool" where
  \<comment> \<open>\<open>if token\<close>: neither \<open>None\<close> nor the empty string\<close>
  "truthy token = (case token of None \<Rightarrow> False | Some t \<Rightarrow> t \<noteq> [])"

definition get_event_token_safely :: "event_row \<Rightarrow> exn + string option" where
  \<comment> \<open>\<open>Inl\<close> is an exception that leaves the function.\<close>
  "get_event_token_safely event =
     (case row_registration_token event of
        Inl IndexError \<Rightarrow> Inr None
      | Inl KeyError \<Rightarrow> Inr None
      | Inl e \<Rightarrow> Inl e
      | Inr token \<Rightarrow> Inr (if truthy token then token else None))"

definition event_with_details :: "database \<Rightarrow> event_row \<Rightarrow> exn + event_details" where
  \<comment> \<open>The body of the loop of \<open>dashboard\<close>.\<close>
  "event_with_details db event =
     (case get_event_token_safely event of
        Inl e \<Rightarrow> Inl e
      | Inr token \<Rightarrow>
          (if truthy token
           then (case url_for_public_register token of
                   Inl e \<Rightarrow> Inl e
                 | Inr url \<Rightarrow>
                     Inr \<lparr>d_event = event,
                          d_participant_count = get_participant_count (r_id event) db,
                          d_registration_url = Some url, d_has_token = True\<rparr>)
           else Inr \<lparr>d_event = event,
                     d_participant_count = get_participant_count (r_id event) db,
                     d_registration_url = None, d_has_token = False\<rparr>))"

fun events_with_details :: "database \<Rightarrow> event_row list \<Rightarrow> exn + event_details list" where
  "events_with_details db [] = Inr []"
| "events_with_details db (event # rest) =
     (case event_with_details db event of
        Inl e \<Rightarrow> Inl e
      | Inr d \<Rightarrow>
          (case events_with_details db rest of
             Inl e \<Rightarrow> Inl e
           | Inr ds \<Rightarrow> Inr (d # ds)))"

definition dashboard_body :: "database \<Rightarrow> reply \<times> database" where
  "dashboard_body db =
     (case events_with_details db (get_all_events db) of
        Inl e \<Rightarrow> (internal_error, db)
      | Inr ds \<Rightarrow> (([], Dashboard_html ds), db))"

definition dashboard :: "session \<Rightarrow> database \<Rightarrow> reply \<times> database" where
  "dashboard sess = login_required sess dashboard_body"

section \<open>The order of the checks, as the specification words it\<close>

datatype registration_check = Name_length | Email_format | Duplicate_email | College_length

definition spec_check_order :: "registration_check list" where
  "spec_check_order = [Name_length, Email_format, Duplicate_email, College_length]"

definition spec_check_fails ::
  "string \<Rightarrow> string \<Rightarrow> string \<Rightarrow> nat \<Rightarrow> database \<Rightarrow> registration_check \<Rightarrow> bool" where
  "spec_check_fails name email college event_id db c =
     (case c of
        Name_length \<Rightarrow> length name < 2
      | Email_format \<Rightarrow> email = [] \<or> \<not> is_valid_email email
      | Duplicate_email \<Rightarrow> participant_exists_in_event email event_id db
      | College_length \<Rightarrow> length college < 2)"

definition spec_check_message :: "registration_check \<Rightarrow> string" where
  "spec_check_message c =
     (case c of
        Name_length \<Rightarrow> ''Name must be at least 2 characters.''
      | Email_format \<Rightarrow> ''Please enter a valid email address.''
      | Duplicate_email \<Rightarrow> ''This email is already registered for this event.''
      | College_length \<Rightarrow> ''College/Organization must be at least 2 characters.'')"

definition spec_first_failure ::
  "string \<Rightarrow> string \<Rightarrow> string \<Rightarrow> nat \<Rightarrow> database \<Rightarrow> registration_check option" where
  "spec_first_failure name email college event_id db =
     find (spec_check_fails name email college event_id db) spec_check_order"

section \<open>The databases the routes can produce\<close>

text \<open>
  From a database with an empty \<open>PARTICIPANTS\<close> table, by any sequence of requests that
  write to the database.
\<close>

inductive reachable :: "database \<Rightarrow> bool" where
  start: "participants db = [] \<Longrightarrow> reachable db"
| after_create_event:
    "reachable db \<Longrightarrow> reachable (snd (create_event sess method generated f now db))"
| after_delete_event:
    "reachable db \<Longrightarrow> reachable (snd (delete_event sess event_id db))"
| after_public_register:
    "reachable db \<Longrightarrow> reachable (snd (public_register method token f now db))"
| after_delete_participant:
    "reachable db \<Longrightarrow> reachable (snd (delete_participant sess event_id participant_id db))"

section \<open>Example data\<close>

definition ann :: participant where
  "ann = \<lparr>p_id = 1, p_event_id = 1, p_name = ''Ann'', p_email = ''ann@x.com'',
          p_college = ''MIT'', p_registered_at = 10\<rparr>"

definition bob :: participant where
  "bob = \<lparr>p_id = 2, p_event_id = 2, p_name = ''Bob'', p_email = ''bob@x.com'',
          p_college = ''CMU'', p_registered_at = 11\<rparr>"

definition hack_day :: event where
  "hack_day = \<lparr>e_id = 1, e_name = ''Hack Day'', e_description = Some [],
      e_date = Some ''2025-01-01'', e_registration_token = Some ''q1w2e3r4t5y6u7i8o9p0aA'',
      e_created_at = 5\<rparr>"

definition demo_day :: event where
  "demo_day = \<lparr>e_id = 2, e_name = ''Demo Day'', e_description = Some [],
      e_date = Some ''2025-02-01'', e_registration_token = Some ''zZ9yY8xX7wW6vV5uU4tT3s'',
      e_created_at = 6\<rparr>"

definition two_events :: database where
  "two_events = \<lparr>token_schema = Unique, events = [hack_day, demo_day],
      participants = [ann, bob], events_seq = 2, participants_seq = 2\<rparr>"

definition admin :: session where
  "admin = [''admin_logged_in'' \<mapsto> SBool True, ''admin_username'' \<mapsto> SStr ''admin'']"

definition short_name_form :: form where
  "short_name_form =
     [''name'' \<mapsto> ''A'', ''email'' \<mapsto> ''Ann@X.com'', ''college'' \<mapsto> ''M'']"

definition bad_fields_form :: form where
  "bad_fields_form =
     [''name'' \<mapsto> '' Al '', ''email'' \<mapsto> ''not-an-email'', ''college'' \<mapsto> ''M'']"

definition ann_again_form :: form where
  "ann_again_form =
     [''name'' \<mapsto> ''Ann B'', ''email'' \<mapsto> '' ANN@X.COM '', ''college'' \<mapsto> ''M'']"

definition carl_form :: form where
  "carl_form = [''name'' \<mapsto> ''Carl'', ''email'' \<mapsto> ''Carl@X.com'', ''college'' \<mapsto> ''ETH'']"

definition padded_login_form :: form where
  "padded_login_form = [''username'' \<mapsto> '' admin '', ''password'' \<mapsto> ''admin123'']"

definition wrong_login_form :: form where
  "wrong_login_form = [''username'' \<mapsto> ''admin'', ''password'' \<mapsto> ''admin123 '']"

definition legacy_event :: event where
  "legacy_event = \<lparr>e_id = 3, e_name = ''Old Meetup'', e_description = None,
      e_date = Some ''2024-06-01'', e_registration_token = None, e_created_at = 1\<rparr>"

definition blank_token_event :: event where
  "blank_token_event = \<lparr>e_id = 4, e_name = ''Blank'', e_description = None,
      e_date = None, e_registration_token = Some [], e_created_at = 2\<rparr>"

definition legacy_events :: database where
  "legacy_events = \<lparr>token_schema = Plain, events = [legacy_event, blank_token_event, hack_day],
      participants = [ann], events_seq = 4, participants_seq = 1\<rparr>"

definition search_bob :: form where
  "search_bob = [''search'' \<mapsto> '' Bob '']"


definition old_table :: database where
  "old_table = \<lparr>token_schema = Absent, events = [legacy_event], participants = [],
      events_seq = 3, participants_seq = 0\<rparr>"

definition foo_form :: form where
  "foo_form = [''name'' \<mapsto> ''Foo'', ''email'' \<mapsto> ''Foo@X.com'', ''college'' \<mapsto> ''MIT'']"

definition foo_upper_form :: form where
  "foo_upper_form =
     [''name'' \<mapsto> ''Foo Again'', ''email'' \<mapsto> ''FOO@X.COM'', ''college'' \<mapsto> ''MIT'']"

definition no_participants :: database where
  "no_participants = \<lparr>token_schema = Unique, events = [hack_day, demo_day],
      participants = [], events_seq = 2, participants_seq = 0\<rparr>"

definition foo_registered :: database where
  "foo_registered = no_participants
     \<lparr>participants := [\<lparr>p_id = 1, p_event_id = 2, p_name = ''Foo'', p_email = ''foo@x.com'',
                         p_college = ''MIT'', p_registered_at = 30\<rparr>],
      participants_seq := 1\<rparr>"


section \<open>Evaluation\<close>

lemmas string_eval = lower_def strip_def isspace_def lower_char_def char_of_def bit_Suc_0_iff
  form_get_def

lemmas email_eval = is_valid_email_def fullmatch_def email_pattern_def plus_def local_char_def
  domain_char_def ascii_alnum_def ascii_alpha_def

lemmas example_data = two_events_def hack_day_def demo_day_def ann_def bob_def admin_def

lemmas rowid_eval = bind_integer_def max_rowid_def next_rowid_def largest_rowid_def

section \<open>Deleting a participant\<close>

lemma filter_other_id:
  "i \<notin> p_id ` set ps \<Longrightarrow> filter (\<lambda>p. p_id p = i \<longrightarrow> Q p) ps = ps"
  by (induction ps) auto

lemma delete_one_row:
  "distinct (map p_id ps) \<Longrightarrow>
   length ps \<le> Suc (length (filter (\<lambda>p. p_id p = i \<longrightarrow> Q p) ps))"
proof (induction ps)
  case Nil
  then show ?case by simp
next
  case (Cons p ps)
  show ?case
  proof (cases "p_id p = i \<and> \<not> Q p")
    case True
    with Cons.prems have "i \<notin> p_id ` set ps" by auto
    then show ?thesis using True by (simp add: filter_other_id)
  next
    case False
    with Cons show ?thesis by auto
  qed
qed

lemma login_required_admin:
  "sess ''admin_logged_in'' \<noteq> None \<Longrightarrow> login_required sess f db = f db"
  by (auto simp: login_required_def)

text \<open>
  With both ids in the range of a SQLite \<open>INTEGER\<close>, \<open>delete_participant\<close> of an
  administrator removes exactly the rows of \<open>PARTICIPANTS\<close> that have both that id and
  that event id, at most one row since ids are a primary key, and replies with the
  redirect to the participant list of the event, whether or not a row was removed.
\<close>

lemma delete_participant_scoped:
  assumes "sess ''admin_logged_in'' \<noteq> None"
    and "event_id \<le> max_rowid" and "participant_id \<le> max_rowid"
  shows "delete_participant sess event_id participant_id db =
           (([(''Participant removed successfully.'', ''success'')],
             Redirect (View_participants event_id)),
            db\<lparr>participants :=
                 filter (\<lambda>p. \<not> (p_id p = participant_id \<and> p_event_id p = event_id))
                   (participants db)\<rparr>)
         \<and> (distinct (map p_id (participants db)) \<longrightarrow>
              length (participants db) \<le>
                Suc (length (participants
                       (snd (delete_participant sess event_id participant_id db)))))"
  using assms
  by (simp add: delete_participant_def login_required_admin delete_participant_body_def
      delete_participant_row_def bind_integer_def delete_one_row)

lemma delete_participant_scoped_example:
  "delete_participant admin 1 2 two_events =
     (([(''Participant removed successfully.'', ''success'')], Redirect (View_participants 1)),
      two_events)
   \<and> participants (snd (delete_participant admin 1 1 two_events)) = [bob]
   \<and> distinct (map p_id (participants two_events))
   \<and> length (participants two_events) \<le>
       Suc (length (participants (snd (delete_participant admin 1 1 two_events))))"
  using delete_participant_scoped [of admin 1 2 two_events]
    delete_participant_scoped [of admin 1 1 two_events]
  by (simp add: admin_def two_events_def ann_def bob_def max_rowid_def)

text \<open>
  C9: the claim is for every pair of ids, and the route takes every natural number. With
  a participant id or an event id of 2 to the 63, which is no SQLite \<open>INTEGER\<close>, binding
  the id raises \<open>OverflowError\<close>, which \<open>except sqlite3.Error\<close> does not catch: the reply
  of \<open>delete_participant\<close> is the page of status 500, not the redirect to the participant
  list. No row is removed.
\<close>

theorem delete_participant_overflow:
  "delete_participant admin 1 9223372036854775808 two_events = (internal_error, two_events)
   \<and> delete_participant admin 9223372036854775808 1 two_events = (internal_error, two_events)
   \<and> fst (delete_participant admin 1 9223372036854775808 two_events)
       \<noteq> ([(''Participant removed successfully.'', ''success'')], Redirect (View_participants 1))"
  by (simp add: delete_participant_def login_required_def delete_participant_body_def
      delete_participant_row_def rowid_eval is_sqlite_error_def internal_error_def admin_def)

section \<open>Deleting an event\<close>

text \<open>
  C6: for an administrator and an event that exists, \<open>delete_event\<close> removes the row of
  the event and every participant whose \<open>event_id\<close> is the id of the event, and leaves
  every other event and every participant of another event as it was.
\<close>

theorem delete_event_cascades:
  assumes "sess ''admin_logged_in'' \<noteq> None"
    and "get_event_by_id event_id db = Inr (Some event)"
  shows "delete_event sess event_id db =
           (([(''Event '' @ [CHR 0x22] @ r_name event @ [CHR 0x22] @ '' deleted successfully.'',
               ''success'')], Redirect Dashboard),
            db\<lparr>participants := filter (\<lambda>p. p_event_id p \<noteq> event_id) (participants db),
               events := filter (\<lambda>e. e_id e \<noteq> event_id) (events db)\<rparr>)"
  using assms
  by (simp add: delete_event_def login_required_admin delete_event_body_def
      delete_event_row_def delete_participants_of_def)

theorem delete_event_cascades_witness:
  "events (snd (delete_event admin 1 two_events)) = [demo_day]
   \<and> participants (snd (delete_event admin 1 two_events)) = [bob]"
  using delete_event_cascades [of admin 1 two_events "select_event two_events hack_day"]
  by (simp add: admin_def two_events_def ann_def bob_def hack_day_def demo_day_def
      get_event_by_id_def rowid_eval)

section \<open>Registering with a token\<close>

text \<open>
  When the \<open>EVENTS\<close> table has its token column and no event has the token of the
  request, \<open>public_register\<close>, for either method and whatever other requests do, answers
  with the error page "Invalid Registration Link" and returns the database as it was: no
  participant is created and no event changes.
\<close>

lemma invalid_token_rejected:
  assumes "token_schema db \<noteq> Absent"
    and "\<forall>e \<in> set (events db). e_registration_token e \<noteq> Some token"
  shows "public_register_among others method token f now db =
           (([(''Invalid or expired registration link.'', ''error'')],
             Error_html ''Invalid Registration Link''
               ''The registration link you used is invalid or has expired.'' 200), db)"
proof -
  from assms(2) have "find (\<lambda>e. e_registration_token e = Some token) (events db) = None"
    by (simp add: find_None_iff)
  with assms(1) have "get_event_by_token token db = Inr None"
    by (simp add: get_event_by_token_def)
  then show ?thesis by (simp add: public_register_among_def)
qed

lemma invalid_token_rejected_example:
  "public_register GET ''not-a-real-token'' Map.empty 20 two_events =
     (([(''Invalid or expired registration link.'', ''error'')],
       Error_html ''Invalid Registration Link''
         ''The registration link you used is invalid or has expired.'' 200), two_events)
   \<and> public_register POST ''not-a-real-token'' ann_again_form 20 two_events =
     (([(''Invalid or expired registration link.'', ''error'')],
       Error_html ''Invalid Registration Link''
         ''The registration link you used is invalid or has expired.'' 200), two_events)"
  using invalid_token_rejected [of two_events "''not-a-real-token''" "\<lambda>db. db" GET Map.empty 20]
    invalid_token_rejected [of two_events "''not-a-real-token''" "\<lambda>db. db" POST ann_again_form 20]
  by (simp add: public_register_def example_data)

text \<open>
  C7: the claim is for every token that no event has. On a table without the token
  column, the state the migration leaves when it fails and that \<open>create_event\<close> and
  \<open>get_event_token_safely\<close> provide for, no event has the token, and the lookup by token
  raises \<open>OperationalError\<close>, which \<open>public_register\<close> does not catch: the reply is the
  page of status 500, not the error page "Invalid Registration Link". The database stays
  as it was.
\<close>

theorem invalid_token_missing_column:
  "find (\<lambda>e. e_registration_token e = Some ''not-a-real-token'') (events old_table) = None
   \<and> public_register GET ''not-a-real-token'' Map.empty 20 old_table =
       (internal_error, old_table)
   \<and> public_register POST ''not-a-real-token'' ann_again_form 20 old_table =
       (internal_error, old_table)
   \<and> fst (public_register GET ''not-a-real-token'' Map.empty 20 old_table) \<noteq>
       ([(''Invalid or expired registration link.'', ''error'')],
        Error_html ''Invalid Registration Link''
          ''The registration link you used is invalid or has expired.'' 200)"
  by (simp add: public_register_def public_register_among_def get_event_by_token_def
      old_table_def legacy_event_def internal_error_def)

text \<open>
  C4: for a registration posted to an existing event, the checks run in the order name
  length, email format, duplicate email, college length, and the message flashed is the
  one of the first check in that order that fails, whatever the later fields hold; the
  database is returned as it was.
\<close>

theorem validation_order:
  assumes "get_event_by_token token db = Inr (Some event)"
    and "spec_first_failure (strip (form_get f ''name'')) (lower (strip (form_get f ''email'')))
           (strip (form_get f ''college'')) (r_id event) db = Some c"
  shows "public_register_among others POST token f now db =
           (([(spec_check_message c, ''error'')], Redirect (Public_register token)), db)"
  using assms
  by (cases c)
    (auto simp: public_register_among_def spec_first_failure_def spec_check_order_def
      spec_check_fails_def spec_check_message_def Let_def split: if_splits)

theorem validation_order_witness:
  "public_register POST ''q1w2e3r4t5y6u7i8o9p0aA'' short_name_form 20 two_events =
     (([(''Name must be at least 2 characters.'', ''error'')],
       Redirect (Public_register ''q1w2e3r4t5y6u7i8o9p0aA'')), two_events)
   \<and> public_register POST ''q1w2e3r4t5y6u7i8o9p0aA'' bad_fields_form 20 two_events =
     (([(''Please enter a valid email address.'', ''error'')],
       Redirect (Public_register ''q1w2e3r4t5y6u7i8o9p0aA'')), two_events)
   \<and> public_register POST ''q1w2e3r4t5y6u7i8o9p0aA'' ann_again_form 20 two_events =
     (([(''This email is already registered for this event.'', ''error'')],
       Redirect (Public_register ''q1w2e3r4t5y6u7i8o9p0aA'')), two_events)"
proof -
  have ev: "get_event_by_token ''q1w2e3r4t5y6u7i8o9p0aA'' two_events =
              Inr (Some (select_event two_events hack_day))"
    by (simp add: get_event_by_token_def example_data)
  have a: "spec_first_failure (strip (form_get short_name_form ''name''))
             (lower (strip (form_get short_name_form ''email'')))
             (strip (form_get short_name_form ''college''))
             (r_id (select_event two_events hack_day)) two_events = Some Name_length"
    by (simp add: spec_first_failure_def spec_check_order_def spec_check_fails_def
        short_name_form_def string_eval)
  have b: "spec_first_failure (strip (form_get bad_fields_form ''name''))
             (lower (strip (form_get bad_fields_form ''email'')))
             (strip (form_get bad_fields_form ''college''))
             (r_id (select_event two_events hack_day)) two_events = Some Email_format"
    by (simp add: spec_first_failure_def spec_check_order_def spec_check_fails_def
        bad_fields_form_def string_eval email_eval)
  have c: "spec_first_failure (strip (form_get ann_again_form ''name''))
             (lower (strip (form_get ann_again_form ''email'')))
             (strip (form_get ann_again_form ''college''))
             (r_id (select_event two_events hack_day)) two_events = Some Duplicate_email"
    by (simp add: spec_first_failure_def spec_check_order_def spec_check_fails_def
        ann_again_form_def string_eval email_eval participant_exists_in_event_def
        select_event_def example_data)
  show ?thesis
    using validation_order [OF ev a, of "\<lambda>db. db" 20] validation_order [OF ev b, of "\<lambda>db. db" 20]
      validation_order [OF ev c, of "\<lambda>db. db" 20]
    by (simp add: public_register_def spec_check_message_def)
qed

lemma valid_email_nonempty: "is_valid_email email \<Longrightarrow> email \<noteq> []"
  by (auto simp: email_eval)

lemma insert_participant_integrity:
  "(\<exists>m. insert_participant event_id name email college now db = Inl (IntegrityError m)) \<longleftrightarrow>
   (largest_rowid (participants_seq db) (map p_id (participants db)) < max_rowid \<and>
    participant_exists_in_event email event_id db)"
  by (auto simp: participant_exists_in_event_def insert_participant_def next_rowid_def
      find_None_iff)

text \<open>
  C2: for a registration posted to an existing event that passes the checks before the
  one that finds the duplicate (a trimmed name of at least 2 characters and a trimmed,
  lowercased email of a valid format; for the insert also a trimmed college of at least
  2 characters), a duplicate gives one and the same reply, the flash "This email is
  already registered for this event." with the redirect to the form, whether the check
  before the insert finds the email among the participants of the event or the insert
  fails on an integrity violation; the request leaves the database it met as it was.
  The insert fails on an integrity violation exactly when the table has a row id left
  to give and the email belongs to a participant of the event by then.
\<close>

theorem duplicate_email_same_outcome:
  assumes "get_event_by_token token db = Inr (Some event)"
    and "2 \<le> length (strip (form_get f ''name''))"
    and "is_valid_email (lower (strip (form_get f ''email'')))"
  shows "(participant_exists_in_event (lower (strip (form_get f ''email''))) (r_id event) db \<longrightarrow>
            public_register_among others POST token f now db = (already_registered token, db))
       \<and> (\<not> participant_exists_in_event (lower (strip (form_get f ''email''))) (r_id event) db \<and>
          2 \<le> length (strip (form_get f ''college'')) \<and>
          (\<exists>m. insert_participant (r_id event) (strip (form_get f ''name''))
                 (lower (strip (form_get f ''email''))) (strip (form_get f ''college'')) now
                 (others db) = Inl (IntegrityError m)) \<longrightarrow>
            public_register_among others POST token f now db =
              (already_registered token, others db))
       \<and> ((\<exists>m. insert_participant (r_id event) (strip (form_get f ''name''))
                 (lower (strip (form_get f ''email''))) (strip (form_get f ''college'')) now
                 (others db) = Inl (IntegrityError m)) \<longleftrightarrow>
           largest_rowid (participants_seq (others db)) (map p_id (participants (others db)))
             < max_rowid \<and>
           participant_exists_in_event (lower (strip (form_get f ''email''))) (r_id event)
             (others db))"
proof -
  from assms(3) have ne: "lower (strip (form_get f ''email'')) \<noteq> []"
    by (rule valid_email_nonempty)
  from assms(2) have nm: "strip (form_get f ''name'') \<noteq> []" by auto
  have pre: "public_register_among others POST token f now db = (already_registered token, db)"
    if "participant_exists_in_event (lower (strip (form_get f ''email''))) (r_id event) db"
    using that assms ne nm
    by (simp add: public_register_among_def already_registered_def Let_def)
  have race: "public_register_among others POST token f now db =
                (already_registered token, others db)"
    if a: "\<not> participant_exists_in_event (lower (strip (form_get f ''email''))) (r_id event) db"
      and b: "2 \<le> length (strip (form_get f ''college''))"
      and c: "\<exists>m. insert_participant (r_id event) (strip (form_get f ''name''))
                 (lower (strip (form_get f ''email''))) (strip (form_get f ''college'')) now
                 (others db) = Inl (IntegrityError m)"
  proof -
    from b have cn: "strip (form_get f ''college'') \<noteq> []" by auto
    from c obtain m where
      "insert_participant (r_id event) (strip (form_get f ''name''))
         (lower (strip (form_get f ''email''))) (strip (form_get f ''college'')) now (others db)
       = Inl (IntegrityError m)" by blast
    then have "public_register_insert token event (strip (form_get f ''name''))
         (lower (strip (form_get f ''email''))) (strip (form_get f ''college'')) now (others db)
       = (already_registered token, others db)"
      by (simp add: public_register_insert_def already_registered_def)
    with a b cn assms ne nm show ?thesis
      by (simp add: public_register_among_def Let_def)
  qed
  from pre race insert_participant_integrity show ?thesis by blast
qed

theorem duplicate_email_same_outcome_witness:
  "public_register POST ''q1w2e3r4t5y6u7i8o9p0aA'' ann_again_form 20 two_events =
     (already_registered ''q1w2e3r4t5y6u7i8o9p0aA'', two_events)
   \<and> public_register_among (\<lambda>db. snd (public_register POST ''q1w2e3r4t5y6u7i8o9p0aA'' carl_form 19 db))
       POST ''q1w2e3r4t5y6u7i8o9p0aA'' carl_form 20 two_events =
     (already_registered ''q1w2e3r4t5y6u7i8o9p0aA'',
      snd (public_register POST ''q1w2e3r4t5y6u7i8o9p0aA'' carl_form 19 two_events))"
proof -
  have ev: "get_event_by_token ''q1w2e3r4t5y6u7i8o9p0aA'' two_events =
              Inr (Some (select_event two_events hack_day))"
    by (simp add: get_event_by_token_def example_data)
  have n1: "2 \<le> length (strip (form_get ann_again_form ''name''))"
    by (simp add: ann_again_form_def string_eval)
  have e1: "is_valid_email (lower (strip (form_get ann_again_form ''email'')))"
    by (simp add: ann_again_form_def string_eval email_eval)
  have d1: "participant_exists_in_event (lower (strip (form_get ann_again_form ''email'')))
              (r_id (select_event two_events hack_day)) two_events"
    by (simp add: ann_again_form_def string_eval participant_exists_in_event_def
        select_event_def example_data)
  have n2: "2 \<le> length (strip (form_get carl_form ''name''))"
    by (simp add: carl_form_def string_eval)
  have e2: "is_valid_email (lower (strip (form_get carl_form ''email'')))"
    by (simp add: carl_form_def string_eval email_eval)
  have c2: "2 \<le> length (strip (form_get carl_form ''college''))"
    by (simp add: carl_form_def string_eval)
  have d2: "\<not> participant_exists_in_event (lower (strip (form_get carl_form ''email'')))
              (r_id (select_event two_events hack_day)) two_events"
    by (simp add: carl_form_def string_eval participant_exists_in_event_def
        select_event_def example_data)
  have d3: "\<exists>m. insert_participant (r_id (select_event two_events hack_day))
              (strip (form_get carl_form ''name'')) (lower (strip (form_get carl_form ''email'')))
              (strip (form_get carl_form ''college'')) 20
              (snd (public_register POST ''q1w2e3r4t5y6u7i8o9p0aA'' carl_form 19 two_events))
            = Inl (IntegrityError m)"
    by (simp add: carl_form_def string_eval email_eval participant_exists_in_event_def
        select_event_def example_data public_register_def public_register_among_def
        get_event_by_token_def public_register_insert_def insert_participant_def rowid_eval
        Let_def)
  show ?thesis
    using duplicate_email_same_outcome [OF ev n1 e1, of "\<lambda>db. db" 20]
      duplicate_email_same_outcome [OF ev n2 e2,
        of "\<lambda>db. snd (public_register POST ''q1w2e3r4t5y6u7i8o9p0aA'' carl_form 19 db)" 20]
      d1 d2 d3 c2
    by (simp add: public_register_def)
qed

section \<open>Logging in\<close>

text \<open>
  C8, amended: for a client that is not logged in, a posted login establishes the admin
  session if and only if the username with the whitespace at its ends removed equals
  \<open>ADMIN_USERNAME\<close> and the password as sent equals \<open>ADMIN_PASSWORD\<close>; any other pair gets
  "Invalid username or password." and the session stays as it was.
\<close>

theorem login_trimmed_credentials:
  assumes "sess ''admin_logged_in'' = None"
  shows "(snd (login cfg POST f sess) ''admin_logged_in'' \<noteq> None \<longleftrightarrow>
            strip (form_get f ''username'') = ADMIN_USERNAME cfg \<and>
            form_get f ''password'' = ADMIN_PASSWORD cfg)
       \<and> (\<not> (strip (form_get f ''username'') = ADMIN_USERNAME cfg \<and>
              form_get f ''password'' = ADMIN_PASSWORD cfg) \<longrightarrow>
            login cfg POST f sess =
              (([(''Invalid username or password.'', ''error'')], Redirect Login), sess))"
  using assms by (simp add: login_def Let_def)

theorem login_trimmed_credentials_witness:
  "snd (login default_config POST padded_login_form Map.empty) ''admin_logged_in'' \<noteq> None
   \<and> login default_config POST wrong_login_form Map.empty =
       (([(''Invalid username or password.'', ''error'')], Redirect Login), Map.empty)"
  using login_trimmed_credentials [of Map.empty default_config padded_login_form]
    login_trimmed_credentials [of Map.empty default_config wrong_login_form]
  by (simp add: default_config_def padded_login_form_def wrong_login_form_def string_eval)

text \<open>
  C8 as stated fails: a username with spaces around it is not the configured one, and
  logs in.
\<close>

theorem login_padded_username_counterexample:
  "(form_get padded_login_form ''username'', form_get padded_login_form ''password'')
     \<noteq> (ADMIN_USERNAME default_config, ADMIN_PASSWORD default_config)
   \<and> snd (login default_config POST padded_login_form Map.empty) ''admin_logged_in''
       = Some (SBool True)"
  by (simp add: default_config_def padded_login_form_def string_eval login_def)

section \<open>The dashboard and the participant list\<close>

lemma get_event_token_safely_eq:
  "get_event_token_safely event =
     Inr (case r_registration_token event of
            No_column \<Rightarrow> None
          | Column None \<Rightarrow> None
          | Column (Some t) \<Rightarrow> if t = [] then None else Some t)"
  by (simp add: get_event_token_safely_def row_registration_token_def truthy_def
      split: column.splits option.splits)

lemma event_with_details_eq:
  "event_with_details db event =
     Inr (case get_event_token_safely event of
            Inr (Some t) \<Rightarrow>
              \<lparr>d_event = event, d_participant_count = get_participant_count (r_id event) db,
               d_registration_url = Some (Public_register t), d_has_token = True\<rparr>
          | _ \<Rightarrow>
              \<lparr>d_event = event, d_participant_count = get_participant_count (r_id event) db,
               d_registration_url = None, d_has_token = False\<rparr>)"
  by (simp add: event_with_details_def get_event_token_safely_eq truthy_def
      url_for_public_register_def split: column.splits option.splits)

lemma event_with_details_no_token:
  "event_with_details db event = Inr d \<Longrightarrow>
   r_registration_token event \<in> {No_column, Column None, Column (Some [])} \<Longrightarrow>
   d_registration_url d = None \<and> \<not> d_has_token d"
  by (auto simp: event_with_details_eq get_event_token_safely_eq)

lemma events_with_details_eq:
  "\<exists>ds. events_with_details db rows = Inr ds \<and> map d_event ds = rows \<and>
     (\<forall>d \<in> set ds. event_with_details db (d_event d) = Inr d)"
proof (induction rows)
  case Nil
  show ?case by simp
next
  case (Cons event rest)
  then obtain ds where ds: "events_with_details db rest = Inr ds" "map d_event ds = rest"
    "\<forall>d \<in> set ds. event_with_details db (d_event d) = Inr d" by blast
  obtain d where d: "event_with_details db event = Inr d"
    by (simp add: event_with_details_eq)
  then have "d_event d = event"
    by (auto simp: event_with_details_eq split: sum.splits option.splits)
  with ds d show ?case by simp
qed

text \<open>
  C10: \<open>get_event_token_safely\<close> returns on every row and raises on none: the stored
  token when the row has one that is not empty, and \<open>None\<close> when the column is missing
  from the row or holds \<open>NULL\<close> or the empty string. The dashboard of an administrator
  then renders, never failing, one entry for each event, and an entry of an event
  without such a token has \<open>registration_url\<close> \<open>None\<close> and \<open>has_token\<close> false.
\<close>

theorem token_accessor_total:
  "get_event_token_safely event =
     Inr (case r_registration_token event of
            No_column \<Rightarrow> None
          | Column None \<Rightarrow> None
          | Column (Some t) \<Rightarrow> if t = [] then None else Some t)
   \<and> (sess ''admin_logged_in'' \<noteq> None \<longrightarrow>
        (\<exists>ds. dashboard sess db = (([], Dashboard_html ds), db) \<and>
              map d_event ds = get_all_events db \<and>
              (\<forall>d \<in> set ds.
                 r_registration_token (d_event d) \<in> {No_column, Column None, Column (Some [])} \<longrightarrow>
                 d_registration_url d = None \<and> \<not> d_has_token d)))"
proof -
  obtain ds where ds: "events_with_details db (get_all_events db) = Inr ds"
    "map d_event ds = get_all_events db"
    "\<forall>d \<in> set ds. event_with_details db (d_event d) = Inr d"
    using events_with_details_eq by blast
  have "d_registration_url d = None \<and> \<not> d_has_token d"
    if "d \<in> set ds"
      "r_registration_token (d_event d) \<in> {No_column, Column None, Column (Some [])}" for d
  proof -
    from that ds(3) have "event_with_details db (d_event d) = Inr d" by blast
    with that(2) show ?thesis
      by (rule event_with_details_no_token [rotated])
  qed
  with ds show ?thesis
    by (simp add: get_event_token_safely_eq dashboard_def login_required_def dashboard_body_def)
qed


lemmas dashboard_eval = dashboard_def login_required_def dashboard_body_def get_all_events_def
  order_by_desc_def
  select_event_def event_with_details_def get_event_token_safely_def row_registration_token_def
  truthy_def url_for_public_register_def get_participant_count_def

theorem token_accessor_total_witness:
  "get_event_token_safely (select_event (legacy_events\<lparr>token_schema := Absent\<rparr>) legacy_event)
     = Inr None
   \<and> (\<exists>ds. dashboard admin legacy_events = (([], Dashboard_html ds), legacy_events) \<and>
          map d_registration_url ds =
            [Some (Public_register ''q1w2e3r4t5y6u7i8o9p0aA''), None, None])"
proof -
  have "dashboard admin legacy_events =
          (([], Dashboard_html
                  (map (\<lambda>e. \<lparr>d_event = select_event legacy_events e,
                              d_participant_count = (if e = hack_day then 1 else 0),
                              d_registration_url =
                                (if e = hack_day
                                 then Some (Public_register ''q1w2e3r4t5y6u7i8o9p0aA'') else None),
                              d_has_token = (e = hack_day)\<rparr>)
                     [hack_day, blank_token_event, legacy_event])), legacy_events)"
    by (simp add: dashboard_eval legacy_events_def legacy_event_def blank_token_event_def
        example_data)
  then show ?thesis
    using token_accessor_total
      [of "select_event (legacy_events\<lparr>token_schema := Absent\<rparr>) legacy_event" admin legacy_events]
    by (simp add: select_event_def legacy_events_def legacy_event_def blank_token_event_def
        example_data)
qed

lemma length_filter_conj_le: "length (filter (\<lambda>x. P x \<and> Q x) xs) \<le> length (filter P xs)"
  by (induction xs) auto

lemma length_select_participants:
  "length (select_participants event_id search_query db) \<le> get_participant_count event_id db"
  "search_query = [] \<Longrightarrow>
   length (select_participants event_id search_query db) = get_participant_count event_id db"
  by (simp_all add: select_participants_def order_by_desc_def get_participant_count_def
      length_filter_conj_le)

text \<open>
  C3, amended: for an administrator, an event that exists and whose token is not
  \<open>NULL\<close>, and any query string, \<open>view_participants\<close> renders the list with a count that
  is the length of the list shown; the count is never more than
  \<open>get_participant_count\<close> of the event, and equals it when the search string is empty
  once trimmed.
\<close>

theorem participant_count_shown:
  assumes "sess ''admin_logged_in'' \<noteq> None"
    and "get_event_by_id event_id db = Inr (Some event)"
    and "r_registration_token event = Column (Some t)"
  shows "\<exists>page. view_participants sess event_id args db = (([], Participants_html page), db) \<and>
           v_participant_count page = length (v_participants page) \<and>
           v_participant_count page \<le> get_participant_count event_id db \<and>
           (strip (form_get args ''search'') = [] \<longrightarrow>
              v_participant_count page = get_participant_count event_id db)"
  using assms
  by (simp add: view_participants_def login_required_admin view_participants_body_def
      row_registration_token_def url_for_public_register_def Let_def lower_def
      length_select_participants)

lemmas view_eval = view_participants_def login_required_def view_participants_body_def
  row_registration_token_def url_for_public_register_def Let_def get_event_by_id_def
  select_event_def select_participants_def order_by_desc_def get_participant_count_def
  sqlite_lower_def sqlite_lower_char_def bind_integer_def max_rowid_def

theorem participant_count_shown_witness:
  "(\<exists>page. view_participants admin 1 Map.empty two_events =
             (([], Participants_html page), two_events) \<and>
           v_participant_count page = 1)
   \<and> get_participant_count 1 two_events = 1"
proof -
  have ev: "get_event_by_id 1 two_events = Inr (Some (select_event two_events hack_day))"
    by (simp add: get_event_by_id_def example_data rowid_eval)
  have tk: "r_registration_token (select_event two_events hack_day) =
              Column (Some ''q1w2e3r4t5y6u7i8o9p0aA'')"
    by (simp add: select_event_def example_data)
  have lg: "admin ''admin_logged_in'' \<noteq> None" by (simp add: admin_def)
  have ct: "get_participant_count 1 two_events = 1"
    by (simp add: get_participant_count_def example_data)
  from participant_count_shown [where sess = admin and args = Map.empty, OF lg ev tk] ct
  show ?thesis
    by (auto simp: string_eval)
qed

text \<open>
  C3 as stated fails: a search for "bob" among the participants of an event whose only
  participant is Ann shows the count 0, and the event has 1 participant.
\<close>

theorem search_count_counterexample:
  "(\<exists>page. view_participants admin 1 search_bob two_events =
             (([], Participants_html page), two_events) \<and>
           v_search_query page = ''bob'' \<and> v_participants page = [] \<and>
           v_participant_count page = 0)
   \<and> get_participant_count 1 two_events = 1"
  by (simp add: view_eval search_bob_def string_eval example_data)

section \<open>Creating an event\<close>





lemma contains_token_column:
  "contains ''registration_token'' ''table EVENTS has no column named registration_token''"
  by simp

lemma not_contains_full: "\<not> contains ''registration_token'' ''database or disk is full''"
  by simp











section \<open>Emails\<close>

lemma lower_char_idem: "lower_char (lower_char c) = lower_char c"
  by (auto simp: lower_char_def Let_def)

lemma isspace_lower_char: "isspace (lower_char c) = isspace c"
  by (auto simp: lower_char_def isspace_def Let_def)

lemma lower_idem: "lower (lower s) = lower s"
  by (simp add: lower_def lower_char_idem)

lemma dropWhile_isspace_lower:
  "dropWhile isspace (map lower_char s) = map lower_char (dropWhile isspace s)"
  by (induction s) (simp_all add: isspace_lower_char)

lemma strip_lower: "strip (lower s) = lower (strip s)"
  by (simp add: strip_def lower_def dropWhile_isspace_lower rev_map)

lemma strip_idem: "strip (strip s) = strip s"
proof (cases "dropWhile isspace s")
  case Nil
  have e: "strip s = []" unfolding strip_def Nil by simp
  have "strip [] = []" by (simp add: strip_def)
  with e show ?thesis by simp
next
  case (Cons x t)
  then have nx: "\<not> isspace x"
    by (metis hd_dropWhile list.sel(1) list.distinct(1))
  have "strip s = x # rev (dropWhile isspace (rev t))"
    using nx by (simp add: strip_def Cons dropWhile_append3)
  moreover have "strip (x # rev (dropWhile isspace (rev t))) = x # rev (dropWhile isspace (rev t))"
    using nx by (simp add: strip_def dropWhile_append3)
  ultimately show ?thesis by simp
qed

lemma normalise_idem: "lower (strip (lower (strip e))) = lower (strip e)"
  by (simp add: strip_lower strip_idem lower_idem)

lemma find_snoc:
  "find P (xs @ [x]) = (case find P xs of None \<Rightarrow> (if P x then Some x else None) | Some y \<Rightarrow> Some y)"
  by (induction xs) auto

lemma public_register_cases:
  assumes "public_register method token f now db = (r, db')"
  shows "db' = db \<or>
         (\<exists>event. get_event_by_token token db = Inr (Some event) \<and>
            method = POST \<and>
            2 \<le> length (strip (form_get f ''name'')) \<and>
            is_valid_email (lower (strip (form_get f ''email''))) \<and>
            r = ([], Redirect (Registration_success (r_name event) (strip (form_get f ''name'')))) \<and>
            insert_participant (r_id event) (strip (form_get f ''name''))
              (lower (strip (form_get f ''email''))) (strip (form_get f ''college'')) now db
              = Inr db')"
  using assms
  by (auto simp: public_register_def public_register_among_def public_register_insert_def
      Let_def split: sum.splits option.splits if_splits exn.splits)

lemma public_register_success:
  assumes "public_register POST token f now db =
             (([], Redirect (Registration_success en pn)), db')"
  shows "\<exists>event. get_event_by_token token db = Inr (Some event) \<and>
            2 \<le> length (strip (form_get f ''name'')) \<and>
            is_valid_email (lower (strip (form_get f ''email''))) \<and>
            insert_participant (r_id event) (strip (form_get f ''name''))
              (lower (strip (form_get f ''email''))) (strip (form_get f ''college'')) now db
              = Inr db'"
  using assms
  by (auto simp: public_register_def public_register_among_def public_register_insert_def
      internal_error_def Let_def split: sum.splits option.splits if_splits exn.splits)

lemma insert_participant_result:
  assumes "insert_participant event_id name email college now db = Inr db'"
  shows "find (\<lambda>p. p_event_id p = event_id \<and> p_email p = email) (participants db) = None \<and>
         (\<exists>p. participants db' = participants db @ [p] \<and> p_event_id p = event_id \<and>
              p_email p = email \<and> p_name p = name) \<and>
         events db' = events db \<and> token_schema db' = token_schema db"
  using assms by (auto simp: insert_participant_def split: if_splits sum.splits)

lemma insert_participant_keeps_invariant:
  assumes ins: "insert_participant event_id name email college now db = Inr db'"
    and low: "lower email = email"
    and inv: "(\<forall>p \<in> set (participants db). lower (p_email p) = p_email p) \<and>
              distinct (map (\<lambda>p. (p_event_id p, lower (p_email p))) (participants db))"
  shows "(\<forall>p \<in> set (participants db'). lower (p_email p) = p_email p) \<and>
         distinct (map (\<lambda>p. (p_event_id p, lower (p_email p))) (participants db'))"
proof -
  from insert_participant_result [OF ins] obtain p where
    none: "find (\<lambda>p. p_event_id p = event_id \<and> p_email p = email) (participants db) = None"
    and p: "participants db' = participants db @ [p]" "p_event_id p = event_id" "p_email p = email"
    by blast
  have "(p_event_id p, lower (p_email p)) \<notin>
          (\<lambda>p. (p_event_id p, lower (p_email p))) ` set (participants db)"
  proof
    assume "(p_event_id p, lower (p_email p)) \<in>
              (\<lambda>p. (p_event_id p, lower (p_email p))) ` set (participants db)"
    then obtain q where q: "q \<in> set (participants db)" "p_event_id q = event_id"
      "lower (p_email q) = lower email" using p by auto
    with inv low have "p_email q = email" by auto
    with q none show False by (auto simp: find_None_iff)
  qed
  with inv p low show ?thesis by auto
qed

lemma filter_keeps_invariant:
  assumes "(\<forall>p \<in> set ps. lower (p_email p) = p_email p) \<and>
           distinct (map (\<lambda>p. (p_event_id p, lower (p_email p))) ps)"
  shows "(\<forall>p \<in> set (filter Q ps). lower (p_email p) = p_email p) \<and>
         distinct (map (\<lambda>p. (p_event_id p, lower (p_email p))) (filter Q ps))"
  using assms by (simp add: distinct_map_filter)

lemma create_event_participants:
  "participants (snd (create_event sess method generated f now db)) = participants db"
  by (auto simp: create_event_def login_required_def create_event_body_def Let_def
      create_event_insert_def insert_event_with_token_def insert_event_without_token_def
      add_event_def split: sum.splits exn.splits if_splits)

lemma delete_event_participants:
  "\<exists>Q. participants (snd (delete_event sess event_id db)) = filter Q (participants db)"
proof (cases "sess ''admin_logged_in'' \<noteq> None \<and>
              (\<exists>event. get_event_by_id event_id db = Inr (Some event))")
  case True
  then have "participants (snd (delete_event sess event_id db)) =
               filter (\<lambda>p. p_event_id p \<noteq> event_id) (participants db)"
    by (auto simp: delete_event_def login_required_def delete_event_body_def
        delete_event_row_def delete_participants_of_def)
  then show ?thesis by blast
next
  case False
  then have "participants (snd (delete_event sess event_id db)) =
               filter (\<lambda>p. True) (participants db)"
    by (auto simp: delete_event_def login_required_def delete_event_body_def
        split: sum.splits option.splits)
  then show ?thesis by blast
qed

lemma delete_participant_participants:
  "\<exists>Q. participants (snd (delete_participant sess event_id participant_id db)) =
        filter Q (participants db)"
proof (cases "sess ''admin_logged_in'' \<noteq> None \<and> event_id \<le> max_rowid \<and>
              participant_id \<le> max_rowid")
  case True
  then have "participants (snd (delete_participant sess event_id participant_id db)) =
               filter (\<lambda>p. \<not> (p_id p = participant_id \<and> p_event_id p = event_id))
                 (participants db)"
    by (auto simp: delete_participant_def login_required_def delete_participant_body_def
        delete_participant_row_def bind_integer_def)
  then show ?thesis by blast
next
  case False
  then have "participants (snd (delete_participant sess event_id participant_id db)) =
               filter (\<lambda>p. True) (participants db)"
    by (auto simp: delete_participant_def login_required_def delete_participant_body_def
        delete_participant_row_def bind_integer_def is_sqlite_error_def)
  then show ?thesis by blast
qed

lemma reachable_invariant:
  "reachable db \<Longrightarrow>
   (\<forall>p \<in> set (participants db). lower (p_email p) = p_email p) \<and>
   distinct (map (\<lambda>p. (p_event_id p, lower (p_email p))) (participants db))"
proof (induction rule: reachable.induct)
  case (start db)
  then show ?case by simp
next
  case (after_create_event db sess m generated f now)
  then show ?case by (simp add: create_event_participants)
next
  case (after_delete_event db sess event_id)
  obtain Q where "participants (snd (delete_event sess event_id db)) = filter Q (participants db)"
    using delete_event_participants by blast
  with filter_keeps_invariant [OF after_delete_event.IH, of Q] show ?case by simp
next
  case (after_public_register db m token f now)
  obtain r db' where res: "public_register m token f now db = (r, db')"
    by (cases "public_register m token f now db")
  from public_register_cases [OF res] show ?case
  proof
    assume "db' = db"
    with res after_public_register.IH show ?thesis by simp
  next
    assume "\<exists>event. get_event_by_token token db = Inr (Some event) \<and>
            m = POST \<and>
            2 \<le> length (strip (form_get f ''name'')) \<and>
            is_valid_email (lower (strip (form_get f ''email''))) \<and>
            r = ([], Redirect (Registration_success (r_name event) (strip (form_get f ''name'')))) \<and>
            insert_participant (r_id event) (strip (form_get f ''name''))
              (lower (strip (form_get f ''email''))) (strip (form_get f ''college'')) now db
              = Inr db'"
    then obtain event :: event_row where
      "insert_participant (r_id event) (strip (form_get f ''name''))
              (lower (strip (form_get f ''email''))) (strip (form_get f ''college'')) now db
              = Inr db'" by blast
    from insert_participant_keeps_invariant [OF this lower_idem after_public_register.IH] res
    show ?thesis by simp
  qed
next
  case (after_delete_participant db sess event_id participant_id)
  obtain Q where "participants (snd (delete_participant sess event_id participant_id db)) =
                    filter Q (participants db)"
    using delete_participant_participants by blast
  with filter_keeps_invariant [OF after_delete_participant.IH, of Q] show ?case by simp
qed

lemma get_event_by_token_same_events:
  assumes "events db' = events db" and "token_schema db' = token_schema db"
  shows "get_event_by_token token db' = get_event_by_token token db"
proof -
  from assms(2) have "select_event db' = select_event db"
    by (intro ext) (simp add: select_event_def)
  with assms show ?thesis by (simp add: get_event_by_token_def)
qed

lemma public_register_duplicate:
  assumes "get_event_by_token token db = Inr (Some event)"
    and "2 \<le> length (strip (form_get f ''name''))"
    and "is_valid_email (lower (strip (form_get f ''email'')))"
    and "participant_exists_in_event (lower (strip (form_get f ''email''))) (r_id event) db"
  shows "public_register POST token f now db = (already_registered token, db)"
proof -
  from assms(3) have "lower (strip (form_get f ''email'')) \<noteq> []"
    by (rule valid_email_nonempty)
  moreover from assms(2) have "strip (form_get f ''name'') \<noteq> []" by auto
  ultimately show ?thesis using assms
    by (simp add: public_register_def public_register_among_def already_registered_def Let_def)
qed

lemma registered_row_found:
  assumes "insert_participant event_id name email college now db = Inr db'"
  shows "\<exists>p. participants db' = participants db @ [p] \<and> p_event_id p = event_id \<and>
             p_email p = email \<and> p_name p = name \<and>
             find (\<lambda>q. p_email q = email \<and> p_event_id q = event_id) (participants db') = Some p"
proof -
  from insert_participant_result [OF assms] obtain p where
    none: "find (\<lambda>p. p_event_id p = event_id \<and> p_email p = email) (participants db) = None"
    and p: "participants db' = participants db @ [p]" "p_event_id p = event_id"
      "p_email p = email" "p_name p = name"
    by blast
  from none have "find (\<lambda>q. p_email q = email \<and> p_event_id q = event_id) (participants db) = None"
    by (auto simp: find_None_iff)
  with p have "find (\<lambda>q. p_email q = email \<and> p_event_id q = event_id) (participants db') = Some p"
    by (simp add: find_snoc)
  with p show ?thesis by blast
qed

text \<open>
  C5: the normalisation of a submitted email, trimming then lowercasing, is idempotent.
  In every database the routes produce from an empty \<open>PARTICIPANTS\<close> table, every
  participant's stored email is lowercased and no two participants of one event have
  the same lowercased email. After a registration that succeeds, the lookup with the
  normalised email finds the row just stored for the event, and any later registration
  for the same event with a valid name and an email that normalises to the same string,
  whatever its case, is answered "already registered" and changes nothing.
\<close>

theorem email_case_insensitive:
  "lower (strip (lower (strip email))) = lower (strip email)
   \<and> (reachable db \<longrightarrow>
        (\<forall>p \<in> set (participants db). lower (p_email p) = p_email p) \<and>
        distinct (map (\<lambda>p. (p_event_id p, lower (p_email p))) (participants db)))
   \<and> (public_register POST token f now db0 =
         (([], Redirect (Registration_success en pn)), db1) \<longrightarrow>
        (\<exists>event p. get_event_by_token token db0 = Inr (Some event) \<and>
           participants db1 = participants db0 @ [p] \<and>
           p_event_id p = r_id event \<and> p_name p = strip (form_get f ''name'') \<and>
           p_email p = lower (strip (form_get f ''email'')) \<and>
           find (\<lambda>q. p_email q = lower (strip (form_get f ''email'')) \<and> p_event_id q = r_id event)
             (participants db1) = Some p \<and>
           participant_exists_in_event (lower (strip (form_get f ''email''))) (r_id event) db1) \<and>
        (\<forall>f2 now2.
           2 \<le> length (strip (form_get f2 ''name'')) \<and>
           lower (strip (form_get f2 ''email'')) = lower (strip (form_get f ''email'')) \<longrightarrow>
             public_register POST token f2 now2 db1 = (already_registered token, db1)))"
proof -
  have third: "(\<exists>event p. get_event_by_token token db0 = Inr (Some event) \<and>
           participants db1 = participants db0 @ [p] \<and>
           p_event_id p = r_id event \<and> p_name p = strip (form_get f ''name'') \<and>
           p_email p = lower (strip (form_get f ''email'')) \<and>
           find (\<lambda>q. p_email q = lower (strip (form_get f ''email'')) \<and> p_event_id q = r_id event)
             (participants db1) = Some p \<and>
           participant_exists_in_event (lower (strip (form_get f ''email''))) (r_id event) db1) \<and>
        (\<forall>f2 now2.
           2 \<le> length (strip (form_get f2 ''name'')) \<and>
           lower (strip (form_get f2 ''email'')) = lower (strip (form_get f ''email'')) \<longrightarrow>
             public_register POST token f2 now2 db1 = (already_registered token, db1))"
    if ok: "public_register POST token f now db0 =
              (([], Redirect (Registration_success en pn)), db1)"
  proof -
    from public_register_success [OF ok] obtain event :: event_row where
      ev: "get_event_by_token token db0 = Inr (Some event)"
      and valid: "is_valid_email (lower (strip (form_get f ''email'')))"
      and ins: "insert_participant (r_id event) (strip (form_get f ''name''))
              (lower (strip (form_get f ''email''))) (strip (form_get f ''college'')) now db0
              = Inr db1" by blast
    from registered_row_found [OF ins] obtain p where
      p: "participants db1 = participants db0 @ [p]" "p_event_id p = r_id event"
        "p_email p = lower (strip (form_get f ''email''))" "p_name p = strip (form_get f ''name'')"
        "find (\<lambda>q. p_email q = lower (strip (form_get f ''email'')) \<and> p_event_id q = r_id event)
           (participants db1) = Some p" by blast
    then have ex: "participant_exists_in_event (lower (strip (form_get f ''email''))) (r_id event) db1"
      by (simp add: participant_exists_in_event_def)
    from insert_participant_result [OF ins] have
      same: "events db1 = events db0" "token_schema db1 = token_schema db0" by auto
    have ev1: "get_event_by_token token db1 = Inr (Some event)"
      using get_event_by_token_same_events [OF same, of token] ev by simp
    have again: "public_register POST token f2 now2 db1 = (already_registered token, db1)"
      if n2: "2 \<le> length (strip (form_get f2 ''name''))"
        and e2: "lower (strip (form_get f2 ''email'')) = lower (strip (form_get f ''email''))"
      for f2 now2
    proof (rule public_register_duplicate [OF ev1 n2])
      show "is_valid_email (lower (strip (form_get f2 ''email'')))"
        unfolding e2 by (rule valid)
      show "participant_exists_in_event (lower (strip (form_get f2 ''email''))) (r_id event) db1"
        unfolding e2 by (rule ex)
    qed
    have first: "\<exists>event p. get_event_by_token token db0 = Inr (Some event) \<and>
           participants db1 = participants db0 @ [p] \<and>
           p_event_id p = r_id event \<and> p_name p = strip (form_get f ''name'') \<and>
           p_email p = lower (strip (form_get f ''email'')) \<and>
           find (\<lambda>q. p_email q = lower (strip (form_get f ''email'')) \<and> p_event_id q = r_id event)
             (participants db1) = Some p \<and>
           participant_exists_in_event (lower (strip (form_get f ''email''))) (r_id event) db1"
      apply (rule exI [of _ event])
      apply (rule exI [of _ p])
      using ev p ex by simp
    from again have second: "\<forall>f2 now2.
           2 \<le> length (strip (form_get f2 ''name'')) \<and>
           lower (strip (form_get f2 ''email'')) = lower (strip (form_get f ''email'')) \<longrightarrow>
             public_register POST token f2 now2 db1 = (already_registered token, db1)"
      by simp
    from first second show ?thesis by (rule conjI)
  qed
  have second_part: "reachable db \<longrightarrow>
        (\<forall>p \<in> set (participants db). lower (p_email p) = p_email p) \<and>
        distinct (map (\<lambda>p. (p_event_id p, lower (p_email p))) (participants db))"
    using reachable_invariant by (rule impI)
  from third have third_part: "public_register POST token f now db0 =
         (([], Redirect (Registration_success en pn)), db1) \<longrightarrow>
        (\<exists>event p. get_event_by_token token db0 = Inr (Some event) \<and>
           participants db1 = participants db0 @ [p] \<and>
           p_event_id p = r_id event \<and> p_name p = strip (form_get f ''name'') \<and>
           p_email p = lower (strip (form_get f ''email'')) \<and>
           find (\<lambda>q. p_email q = lower (strip (form_get f ''email'')) \<and> p_event_id q = r_id event)
             (participants db1) = Some p \<and>
           participant_exists_in_event (lower (strip (form_get f ''email''))) (r_id event) db1) \<and>
        (\<forall>f2 now2.
           2 \<le> length (strip (form_get f2 ''name'')) \<and>
           lower (strip (form_get f2 ''email'')) = lower (strip (form_get f ''email'')) \<longrightarrow>
             public_register POST token f2 now2 db1 = (already_registered token, db1))"
    by (rule impI)
  from normalise_idem second_part third_part show ?thesis by (intro conjI)
qed

lemmas register_eval = public_register_def public_register_among_def get_event_by_token_def
  public_register_insert_def insert_participant_def rowid_eval select_event_def
  participant_exists_in_event_def Let_def

theorem email_case_insensitive_witness:
  "lower (strip (lower (strip '' Foo@X.com ''))) = ''foo@x.com''
   \<and> reachable foo_registered
   \<and> distinct (map (\<lambda>p. (p_event_id p, lower (p_email p))) (participants foo_registered))
   \<and> participant_exists_in_event ''foo@x.com'' 2 foo_registered
   \<and> public_register POST ''zZ9yY8xX7wW6vV5uU4tT3s'' foo_upper_form 31 foo_registered =
       (already_registered ''zZ9yY8xX7wW6vV5uU4tT3s'', foo_registered)"
proof -
  have run: "public_register POST ''zZ9yY8xX7wW6vV5uU4tT3s'' foo_form 30 no_participants =
               (([], Redirect (Registration_success ''Demo Day'' ''Foo'')), foo_registered)"
    by (simp add: register_eval foo_form_def foo_registered_def no_participants_def
        string_eval email_eval example_data)
  have "reachable no_participants"
    by (rule reachable.start) (simp add: no_participants_def)
  from reachable.after_public_register [OF this, of POST "''zZ9yY8xX7wW6vV5uU4tT3s''" foo_form 30]
  have reach: "reachable foo_registered" by (simp add: run)
  have ev: "get_event_by_token ''zZ9yY8xX7wW6vV5uU4tT3s'' no_participants =
              Inr (Some (select_event no_participants demo_day))"
    by (simp add: get_event_by_token_def no_participants_def example_data)
  have e1: "lower (strip (form_get foo_form ''email'')) = ''foo@x.com''"
    by (simp add: foo_form_def string_eval)
  have e2: "lower (strip (form_get foo_upper_form ''email'')) = ''foo@x.com''"
    by (simp add: foo_upper_form_def string_eval)
  have e3: "lower (strip '' Foo@X.com '') = ''foo@x.com''"
    by (simp add: string_eval)
  have n2: "2 \<le> length (strip (form_get foo_upper_form ''name''))"
    by (simp add: foo_upper_form_def string_eval)
  note all = email_case_insensitive [where email = "'' Foo@X.com ''" and db = foo_registered
      and token = "''zZ9yY8xX7wW6vV5uU4tT3s''" and f = foo_form and now = 30
      and ?db0.0 = no_participants and en = "''Demo Day''" and pn = "''Foo''"
      and ?db1.0 = foo_registered]
  from all have a: "lower (strip (lower (strip '' Foo@X.com ''))) = ''foo@x.com''"
    by (simp add: e3)
  from all [THEN conjunct2, THEN conjunct1] reach
  have b: "distinct (map (\<lambda>p. (p_event_id p, lower (p_email p))) (participants foo_registered))"
    by simp
  note c = all [THEN conjunct2, THEN conjunct2, THEN mp, OF run]
  from c [THEN conjunct1] ev
  have d: "participant_exists_in_event ''foo@x.com'' 2 foo_registered"
    by (auto simp: e1 select_event_def demo_day_def)
  from c [THEN conjunct2, THEN spec, THEN spec, THEN mp, of foo_upper_form 31] n2
  have e: "public_register POST ''zZ9yY8xX7wW6vV5uU4tT3s'' foo_upper_form 31 foo_registered =
             (already_registered ''zZ9yY8xX7wW6vV5uU4tT3s'', foo_registered)"
    by (simp add: e1 e2)
  from a reach b d e show ?thesis by (intro conjI)
qed

end
